theory Spec2Isabelle
  imports Main "HOL-Library.Multiset"
begin

section \<open>The matcher: \<open>isValid\<close> of PackageCompatibility.js\<close>

text \<open>
  JavaScript strings are modelled as \<open>string\<close>. \<open>item[0] === '!'\<close> is false on the
  empty string (\<open>item[0]\<close> is \<open>undefined\<close> there), and \<open>item.slice(1)\<close> drops the
  first character (the empty string stays empty).
\<close>

definition first_is_bang :: "string \<Rightarrow> bool" where
  "first_is_bang item = (case item of [] \<Rightarrow> False | c # _ \<Rightarrow> c = CHR ''!'')"

definition slice1 :: "string \<Rightarrow> string" where
  "slice1 item = drop 1 item"

text \<open>
  The \<open>for (const item of items)\<close> loop of \<open>isValid\<close>, with the local variable
  \<open>isBlacklist\<close> as an accumulator. The two \<open>return\<close>s inside the loop end the
  recursion; falling out of the loop returns \<open>isBlacklist\<close>.
\<close>

fun isValid_loop :: "string list \<Rightarrow> string \<Rightarrow> bool \<Rightarrow> bool" where
  "isValid_loop [] actual isBlacklist = isBlacklist"
| "isValid_loop (item # items) actual isBlacklist =
     (if item = actual then True
      else if first_is_bang item then
        (if actual = slice1 item then False
         else isValid_loop items actual True)
      else isValid_loop items actual isBlacklist)"

definition isValid :: "string list \<Rightarrow> string \<Rightarrow> bool" where
  "isValid items actual = isValid_loop items actual False"

section \<open>Data model\<close>

text \<open>
  The part of a package reference that \<open>check\<close> reads: the \<open>optional\<close> flag.
  \<open>excluded\<close> is the mark that \<open>addIgnore\<close> sets.
\<close>

record package_reference =
  optional :: bool
  excluded :: bool

text \<open>
  The fields of a manifest that \<open>check\<close> reads. \<open>os\<close> and \<open>cpu\<close> are \<open>None\<close> when
  \<open>Array.isArray\<close> fails, \<open>engines\<close> is \<open>None\<close> when \<open>_.isPlainObject\<close> fails and
  is otherwise the list that \<open>entries(info.engines)\<close> yields, in the object's key order.
  \<open>reference\<close> is \<open>None\<close> when \<open>info.reference\<close> is missing.
\<close>

record manifest =
  name :: string
  version :: string
  os :: "string list option"
  cpu :: "string list option"
  engines :: "(string \<times> string) list option"
  reference :: "package_reference option"

text \<open>The host: \<open>process.platform\<close>, \<open>process.arch\<close> and \<open>process.versions\<close>.\<close>

record environment =
  platform :: string
  arch :: string
  versions :: "string \<rightharpoonup> string"

text \<open>
  What a call leaves behind in its collaborators, in order: the reporter's three sinks
  and the calls of \<open>ref.addIgnore\<close>.
\<close>

datatype event =
    ReporterWarn string
  | ReporterInfo string
  | ReporterError string
  | RefAddIgnore bool

text \<open>
  What a call can throw: the exception of \<open>invariant\<close>, the \<open>MessageError\<close> of
  \<open>check\<close>, and whatever \<open>semver.satisfies\<close> throws (a \<open>TypeError\<close> on an installed
  version that is no semantic version), which nothing in the module catches.
\<close>

datatype error =
    InvariantViolation string
  | MessageError string
  | SemverError string

text \<open>
  The two library functions of the engines step, which are not part of the repository
  and are parameters of the model. \<open>has\<close> is lodash's \<open>_.has(object, path)\<close>: it reads
  its second argument as a property path, so it can hold of a name that is no key of
  the object (\<open>node.length\<close>, \<open>node[0]\<close>). \<open>satisfies\<close> is \<open>semver.satisfies\<close>: its
  first argument is \<open>process.versions[name]\<close>, which is \<open>undefined\<close> (\<open>None\<close>) for such
  a name, and it returns a boolean (\<open>Inr\<close>) or throws (\<open>Inl\<close>, with the message).
\<close>

record libraries =
  has :: "(string \<rightharpoonup> string) \<Rightarrow> string \<Rightarrow> bool"
  satisfies :: "string option \<Rightarrow> string \<Rightarrow> string + bool"

text \<open>The local variables \<open>didIgnore\<close> and \<open>didError\<close> of \<open>check\<close>.\<close>

record check_locals =
  didIgnore :: bool
  didError :: bool

text \<open>
  A computation takes the events emitted so far and returns an exception or a value,
  together with the events emitted up to that point: what was reported before a
  \<open>throw\<close> stays reported.
\<close>

type_synonym 'a exec = "event list \<Rightarrow> (error + 'a) \<times> event list"

section \<open>The module constants\<close>

text \<open>
  \<open>aliases\<close> is the literal of the source; \<open>map\<close> of util/map.js, which wraps it, is
  taken to give an object without inherited properties, so that \<open>aliases[name]\<close> is
  defined for \<open>iojs\<close> only.
\<close>

definition aliases :: "string \<rightharpoonup> string" where
  "aliases = [''iojs'' \<mapsto> ''node'']"

definition ignore :: "string list" where
  "ignore = [''npm'', ''teleport'']"

text \<open>
  \<open>if (aliases[name]) { name = aliases[name]; }\<close>: the alias replaces the name when
  it is there and truthy, that is, a non-empty string.
\<close>

definition resolve_alias :: "string \<Rightarrow> string" where
  "resolve_alias n =
     (case aliases n of
        None \<Rightarrow> n
      | Some a \<Rightarrow> if a \<noteq> [] then a else n)"

section \<open>The checker: \<open>check\<close>\<close>

definition isValidArch :: "environment \<Rightarrow> string list \<Rightarrow> bool" where
  "isValidArch env archs = isValid archs (arch env)"

definition isValidPlatform :: "environment \<Rightarrow> string list \<Rightarrow> bool" where
  "isValidPlatform env platforms = isValid platforms (platform env)"

definition human :: "manifest \<Rightarrow> string" where
  "human info = name info @ ''@'' @ version info"

text \<open>
  The closure \<open>pushError\<close>. \<open>invariant(ref, ...)\<close> throws before anything is
  emitted. On an optional reference the order is \<open>addIgnore(true)\<close>, \<open>warn\<close> and,
  while \<open>didIgnore\<close> is still false, \<open>info\<close>.
\<close>

definition pushError :: "manifest \<Rightarrow> string \<Rightarrow> check_locals \<Rightarrow> check_locals exec" where
  "pushError info msg l w =
     (case reference info of
        None \<Rightarrow> (Inl (InvariantViolation ''expected package reference''), w)
      | Some ref \<Rightarrow>
          if optional ref then
            (let w1 = w @ [RefAddIgnore True];
                 w2 = w1 @ [ReporterWarn (human info @ '': '' @ msg)]
             in if \<not> didIgnore l then
                  (Inr (l\<lparr>didIgnore := True\<rparr>),
                   w2 @ [ReporterInfo (human info @
                     '' is an optional dependency and failed compatibility check. '' @
                     ''Excluding it from installation.'')])
                else (Inr l, w2))
          else
            (Inr (l\<lparr>didError := True\<rparr>),
             w @ [ReporterError (human info @ '': '' @ msg)]))"

definition check_os :: "environment \<Rightarrow> manifest \<Rightarrow> check_locals \<Rightarrow> check_locals exec" where
  "check_os env info l w =
     (case os info of
        None \<Rightarrow> (Inr l, w)
      | Some platforms \<Rightarrow>
          if \<not> isValidPlatform env platforms then
            pushError info
              (''The platform '' @ platform env @ '' is incompatible with this module.'') l w
          else (Inr l, w))"

definition check_cpu :: "environment \<Rightarrow> manifest \<Rightarrow> check_locals \<Rightarrow> check_locals exec" where
  "check_cpu env info l w =
     (case cpu info of
        None \<Rightarrow> (Inr l, w)
      | Some archs \<Rightarrow>
          if \<not> isValidArch env archs then
            pushError info
              (''The CPU architecture '' @ arch env @ '' is incompatible with this module.'') l w
          else (Inr l, w))"

text \<open>
  The body of the loop over \<open>entries(info.engines)\<close>. The test is
  \<open>_.has(process.versions, name)\<close>, the value read is \<open>process.versions[name]\<close>: where
  the test holds of a name that is no key, \<open>actual\<close> is \<open>undefined\<close>. An exception of
  \<open>semver.satisfies\<close> leaves \<open>check\<close> at once. \<open>_.includes\<close> is list membership.
\<close>

definition check_engine ::
  "libraries \<Rightarrow> environment \<Rightarrow> manifest \<Rightarrow> string \<times> string \<Rightarrow>
   check_locals \<Rightarrow> check_locals exec" where
  "check_engine lib env info entry l w =
     (let n = resolve_alias (fst entry); range = snd entry in
      if has lib (versions env) n then
        (let actual = versions env n in
         case satisfies lib actual range of
           Inl thrown \<Rightarrow> (Inl (SemverError thrown), w)
         | Inr ok \<Rightarrow>
             if \<not> ok then
               pushError info
                 (''The engine '' @ n @
                  '' is incompatible with this module. Expected version '' @ range @ ''.'') l w
             else (Inr l, w))
      else if n \<notin> set ignore then
        (Inr l, w @ [ReporterWarn (human info @ '': The engine '' @ n @
                       '' appears to be invalid.'')])
      else (Inr l, w))"

fun check_engines_loop ::
  "libraries \<Rightarrow> environment \<Rightarrow> manifest \<Rightarrow> (string \<times> string) list \<Rightarrow>
   check_locals \<Rightarrow> check_locals exec" where
  "check_engines_loop lib env info [] l w = (Inr l, w)"
| "check_engines_loop lib env info (entry # rest) l w =
     (case check_engine lib env info entry l w of
        (Inl e, w') \<Rightarrow> (Inl e, w')
      | (Inr l', w') \<Rightarrow> check_engines_loop lib env info rest l' w')"

definition check_engines ::
  "libraries \<Rightarrow> environment \<Rightarrow> manifest \<Rightarrow> check_locals \<Rightarrow> check_locals exec" where
  "check_engines lib env info l w =
     (case engines info of
        None \<Rightarrow> (Inr l, w)
      | Some es \<Rightarrow> check_engines_loop lib env info es l w)"

definition check :: "libraries \<Rightarrow> environment \<Rightarrow> manifest \<Rightarrow> unit exec" where
  "check lib env info w =
     (case check_os env info \<lparr>didIgnore = False, didError = False\<rparr> w of
        (Inl e, w1) \<Rightarrow> (Inl e, w1)
      | (Inr l1, w1) \<Rightarrow>
          (case check_cpu env info l1 w1 of
             (Inl e, w2) \<Rightarrow> (Inl e, w2)
           | (Inr l2, w2) \<Rightarrow>
               (case check_engines lib env info l2 w2 of
                  (Inl e, w3) \<Rightarrow> (Inl e, w3)
                | (Inr l3, w3) \<Rightarrow>
                    if didError l3 then (Inl (MessageError ''Found incompatible module''), w3)
                    else (Inr (), w3))))"

section \<open>The batch driver: \<open>init\<close>\<close>

text \<open>
  \<open>infos\<close> is what \<open>this.resolver.getManifests()\<close> returned. An exception of
  \<open>check\<close> is not caught: it ends the loop and rejects the promise.
\<close>

fun init_loop :: "libraries \<Rightarrow> environment \<Rightarrow> manifest list \<Rightarrow> unit exec" where
  "init_loop lib env [] w = (Inr (), w)"
| "init_loop lib env (info # infos) w =
     (case check lib env info w of
        (Inl e, w') \<Rightarrow> (Inl e, w')
      | (Inr u, w') \<Rightarrow> init_loop lib env infos w')"

definition init :: "libraries \<Rightarrow> environment \<Rightarrow> manifest list \<Rightarrow> unit exec" where
  "init lib env infos w = init_loop lib env infos w"

section \<open>The specification's reading of \<open>check\<close>\<close>

text \<open>
  The specification describes \<open>check\<close> in two layers. Steps 1 to 3 produce findings, in
  the order OS, CPU, engine entries: a violation, or the advisory on an engine the host
  does not know. Step 4 is the policy that turns the findings into reporter calls, the
  exclusion mark and the outcome. The definitions of this section follow that
  description; they are compared with \<open>check\<close> below. An engine entry on which
  \<open>semver.satisfies\<close> throws is a third kind of finding, \<open>Thrown\<close>: the call ends there.
\<close>

datatype finding = Violation string | Advisory string | Thrown string

fun is_violation :: "finding \<Rightarrow> bool" where
  "is_violation (Violation v) = True"
| "is_violation f = False"

fun is_advisory :: "finding \<Rightarrow> bool" where
  "is_advisory (Advisory a) = True"
| "is_advisory f = False"

fun is_thrown :: "finding \<Rightarrow> bool" where
  "is_thrown (Thrown m) = True"
| "is_thrown f = False"

fun finding_text :: "finding \<Rightarrow> string" where
  "finding_text (Violation v) = v"
| "finding_text (Advisory a) = a"
| "finding_text (Thrown m) = m"

definition spec_os_findings :: "environment \<Rightarrow> manifest \<Rightarrow> finding list" where
  "spec_os_findings env info =
     (case os info of
        None \<Rightarrow> []
      | Some platforms \<Rightarrow>
          if isValid platforms (platform env) then []
          else [Violation (''The platform '' @ platform env @
                  '' is incompatible with this module.'')])"

definition spec_cpu_findings :: "environment \<Rightarrow> manifest \<Rightarrow> finding list" where
  "spec_cpu_findings env info =
     (case cpu info of
        None \<Rightarrow> []
      | Some archs \<Rightarrow>
          if isValid archs (arch env) then []
          else [Violation (''The CPU architecture '' @ arch env @
                  '' is incompatible with this module.'')])"

definition spec_engine_findings ::
  "libraries \<Rightarrow> environment \<Rightarrow> string \<times> string \<Rightarrow> finding list" where
  "spec_engine_findings lib env entry =
     (if has lib (versions env) (resolve_alias (fst entry)) then
        (case satisfies lib (versions env (resolve_alias (fst entry))) (snd entry) of
           Inl thrown \<Rightarrow> [Thrown thrown]
         | Inr ok \<Rightarrow>
             if ok then []
             else [Violation (''The engine '' @ resolve_alias (fst entry) @
                     '' is incompatible with this module. Expected version '' @
                     snd entry @ ''.'')])
      else if resolve_alias (fst entry) \<in> set ignore then []
      else [Advisory (''The engine '' @ resolve_alias (fst entry) @
              '' appears to be invalid.'')])"

definition spec_engines_findings :: "libraries \<Rightarrow> environment \<Rightarrow> manifest \<Rightarrow> finding list" where
  "spec_engines_findings lib env info =
     (case engines info of
        None \<Rightarrow> []
      | Some es \<Rightarrow> concat (map (spec_engine_findings lib env) es))"

definition spec_findings :: "libraries \<Rightarrow> environment \<Rightarrow> manifest \<Rightarrow> finding list" where
  "spec_findings lib env info =
     spec_os_findings env info @ spec_cpu_findings env info @
     spec_engines_findings lib env info"

text \<open>
  The findings that a call gets to, which are those before the first \<open>Thrown\<close>, and the
  message of that \<open>Thrown\<close>.
\<close>

definition reached :: "finding list \<Rightarrow> finding list" where
  "reached fs = takeWhile (\<lambda>f. \<not> is_thrown f) fs"

fun first_thrown :: "finding list \<Rightarrow> string option" where
  "first_thrown [] = None"
| "first_thrown (Thrown m # fs) = Some m"
| "first_thrown (f # fs) = first_thrown fs"

text \<open>The reporter calls of the policy, for a package shown as \<open>h\<close>.\<close>

definition warn_event :: "string \<Rightarrow> finding \<Rightarrow> event" where
  "warn_event h f = ReporterWarn (h @ '': '' @ finding_text f)"

definition excluded_info :: "string \<Rightarrow> event" where
  "excluded_info h =
     ReporterInfo (h @ '' is an optional dependency and failed compatibility check. '' @
       ''Excluding it from installation.'')"

text \<open>Not optional: a violation is an error-level message, an advisory a warning.\<close>

definition required_event :: "string \<Rightarrow> finding \<Rightarrow> event" where
  "required_event h f =
     (if is_violation f then ReporterError (h @ '': '' @ finding_text f)
      else warn_event h f)"

text \<open>
  Optional: a violation marks the reference and is a warning; \<open>seen\<close> says whether the
  informational message has been emitted.
\<close>

definition optional_later_events :: "string \<Rightarrow> finding \<Rightarrow> event list" where
  "optional_later_events h f =
     (if is_violation f then [RefAddIgnore True, warn_event h f] else [warn_event h f])"

fun optional_events :: "string \<Rightarrow> bool \<Rightarrow> finding list \<Rightarrow> event list" where
  "optional_events h seen [] = []"
| "optional_events h seen (f # fs) =
     (if is_violation f then
        [RefAddIgnore True, warn_event h f] @ (if seen then [] else [excluded_info h]) @
        optional_events h True fs
      else warn_event h f # optional_events h seen fs)"

text \<open>
  The findings routed through \<open>pushError\<close> one after the other: the shape that the
  three steps of \<open>check\<close> share.
\<close>

fun route_findings :: "manifest \<Rightarrow> finding list \<Rightarrow> check_locals \<Rightarrow> check_locals exec" where
  "route_findings info [] l w = (Inr l, w)"
| "route_findings info (Violation v # fs) l w =
     (case pushError info v l w of
        (Inl e, w') \<Rightarrow> (Inl e, w')
      | (Inr l', w') \<Rightarrow> route_findings info fs l' w')"
| "route_findings info (Advisory a # fs) l w =
     route_findings info fs l (w @ [warn_event (human info) (Advisory a)])"
| "route_findings info (Thrown m # fs) l w = (Inl (SemverError m), w)"

text \<open>
  Modelled from the spec: \<open>addIgnore\<close> of the package reference, which is not in the
  source tree. The specification gives \<open>addIgnore(flag: boolean)\<close> "to mark exclusion".
  \<open>reference_after\<close> applies the \<open>addIgnore\<close> calls of a run to a reference.
\<close>

definition addIgnore :: "bool \<Rightarrow> package_reference \<Rightarrow> package_reference" where
  "addIgnore flag ref = ref\<lparr>excluded := flag\<rparr>"

fun reference_after :: "event list \<Rightarrow> package_reference \<Rightarrow> package_reference" where
  "reference_after [] ref = ref"
| "reference_after (RefAddIgnore flag # evs) ref = reference_after evs (addIgnore flag ref)"
| "reference_after (ev # evs) ref = reference_after evs ref"

text \<open>The kinds of event.\<close>

fun is_reporter_warn :: "event \<Rightarrow> bool" where
  "is_reporter_warn (ReporterWarn m) = True"
| "is_reporter_warn ev = False"

fun is_reporter_info :: "event \<Rightarrow> bool" where
  "is_reporter_info (ReporterInfo m) = True"
| "is_reporter_info ev = False"

fun is_reporter_error :: "event \<Rightarrow> bool" where
  "is_reporter_error (ReporterError m) = True"
| "is_reporter_error ev = False"

fun is_ref_add_ignore :: "event \<Rightarrow> bool" where
  "is_ref_add_ignore (RefAddIgnore flag) = True"
| "is_ref_add_ignore ev = False"

section \<open>Example inputs\<close>

text \<open>
  The inputs of the examples below: a Windows host with node 18.0.0 (whose
  \<open>process.versions\<close> also has \<open>modules\<close>, which is no semantic version), and packages
  with the declarations of the specification's test cases. The libraries of the
  examples give the answers of lodash and semver on the names, versions and ranges
  that occur in them: \<open>_.has\<close> holds of a key and of the path \<open>node.length\<close>;
  \<open>semver.satisfies\<close> is false on \<open>undefined\<close>, throws on a version without a dot, and
  else holds for the range \<open>*\<close> and for the version itself as range.
\<close>

abbreviation sample_libraries :: libraries where
  "sample_libraries \<equiv>
     \<lparr>has = (\<lambda>object path.
              if object path = None then path = ''node.length'' \<and> object ''node'' \<noteq> None
              else True),
      satisfies = (\<lambda>actual wanted.
              case actual of
                None \<Rightarrow> Inr False
              | Some v \<Rightarrow>
                  if CHR ''.'' \<in> set v then Inr (wanted = ''*'' \<or> v = wanted)
                  else Inl (''Invalid Version: '' @ v))\<rparr>"

abbreviation win32_host :: environment where
  "win32_host \<equiv>
     \<lparr>platform = ''win32'', arch = ''x64'',
      versions = [''node'' \<mapsto> ''18.0.0'', ''modules'' \<mapsto> ''108'']\<rparr>"

abbreviation optional_pkg :: manifest where
  "optional_pkg \<equiv>
     \<lparr>name = ''fsevents'', version = ''1.0.0'', os = Some [''!win32''], cpu = None,
      engines = Some [(''node'', ''99.0.0'')],
      reference = Some \<lparr>optional = True, excluded = False\<rparr>\<rparr>"

abbreviation required_pkg :: manifest where
  "required_pkg \<equiv>
     \<lparr>name = ''left-pad'', version = ''2.0.0'', os = Some [''!win32''], cpu = Some [''arm''],
      engines = Some [(''someUnknownTool'', ''*''), (''iojs'', ''99.0.0'')],
      reference = Some \<lparr>optional = False, excluded = False\<rparr>\<rparr>"

abbreviation plain_pkg :: manifest where
  "plain_pkg \<equiv>
     \<lparr>name = ''plain'', version = ''0.1.0'', os = Some [''win32'', ''linux''], cpu = None,
      engines = Some [(''npm'', ''1.0.0''), (''node'', ''18.0.0'')],
      reference = Some \<lparr>optional = False, excluded = False\<rparr>\<rparr>"

abbreviation unresolved_pkg :: manifest where
  "unresolved_pkg \<equiv>
     \<lparr>name = ''ghost'', version = ''3.1.0'', os = None, cpu = None,
      engines = Some [(''someUnknownTool'', ''*''), (''node'', ''99.0.0''), (''rhino'', ''1.0.0'')],
      reference = None\<rparr>"

abbreviation picky_pkg :: manifest where
  "picky_pkg \<equiv>
     \<lparr>name = ''picky'', version = ''0.9.0'', os = None, cpu = None,
      engines = Some [(''someUnknownTool'', ''*''), (''iojs'', ''99.0.0''), (''node'', ''98.0.0'')],
      reference = Some \<lparr>optional = True, excluded = False\<rparr>\<rparr>"

abbreviation native_pkg :: manifest where
  "native_pkg \<equiv>
     \<lparr>name = ''native'', version = ''4.0.0'', os = Some [''!win32''], cpu = None,
      engines = Some [(''node'', ''99.0.0''), (''modules'', ''*''), (''iojs'', ''98.0.0'')],
      reference = Some \<lparr>optional = True, excluded = False\<rparr>\<rparr>"

abbreviation path_pkg :: manifest where
  "path_pkg \<equiv>
     \<lparr>name = ''path'', version = ''5.0.0'', os = None, cpu = None,
      engines = Some [(''node.length'', ''*'')],
      reference = Some \<lparr>optional = False, excluded = False\<rparr>\<rparr>"

section \<open>Properties of the matcher\<close>

lemma first_is_bang_Cons [simp]: "first_is_bang (c # cs) = (c = CHR ''!'')"
  by (simp add: first_is_bang_def)

lemma first_is_bang_Nil [simp]: "\<not> first_is_bang []"
  by (simp add: first_is_bang_def)

lemma slice1_Cons [simp]: "slice1 (c # cs) = cs"
  by (simp add: slice1_def)

lemma slice1_bang_iff:
  "first_is_bang item \<Longrightarrow> (actual = slice1 item) = (item = CHR ''!'' # actual)"
  by (cases item) auto

lemma isValid_loop_plain:
  "\<forall>item \<in> set items. \<not> first_is_bang item \<Longrightarrow>
   isValid_loop items actual b = (actual \<in> set items \<or> b)"
  by (induction items arbitrary: b) auto

text \<open>
  The loop is decided by the first entry that is \<open>actual\<close> itself or \<open>!\<close> followed by
  \<open>actual\<close>; when there is none, by the flag and the presence of an entry that begins
  with \<open>!\<close>.
\<close>

lemma isValid_loop_no_decisive:
  "actual \<notin> set items \<Longrightarrow> (CHR ''!'' # actual) \<notin> set items \<Longrightarrow>
   isValid_loop items actual b = (b \<or> (\<exists>item \<in> set items. first_is_bang item))"
proof (induction items arbitrary: b)
  case Nil
  show ?case by simp
next
  case (Cons item items)
  then have rest: "\<And>b'. isValid_loop items actual b' = (b' \<or> (\<exists>i \<in> set items. first_is_bang i))"
    by simp
  from Cons.prems have ne: "item \<noteq> actual" "item \<noteq> CHR ''!'' # actual"
    by auto
  show ?case
  proof (cases "first_is_bang item")
    case True
    with ne have "actual \<noteq> slice1 item"
      by (simp add: slice1_bang_iff)
    with True ne rest show ?thesis by simp
  next
    case False
    with ne rest show ?thesis by simp
  qed
qed

lemma isValid_loop_skip:
  "actual \<notin> set pre \<Longrightarrow> (CHR ''!'' # actual) \<notin> set pre \<Longrightarrow>
   \<exists>b'. isValid_loop (pre @ items) actual b = isValid_loop items actual b'"
proof (induction pre arbitrary: b)
  case Nil
  show ?case by auto
next
  case (Cons item pre)
  then have ne: "item \<noteq> actual" "item \<noteq> CHR ''!'' # actual"
    by auto
  from Cons have ih: "\<And>b0. \<exists>b'. isValid_loop (pre @ items) actual b0 = isValid_loop items actual b'"
    by simp
  show ?case
  proof (cases "first_is_bang item")
    case True
    with ne have "actual \<noteq> slice1 item"
      by (simp add: slice1_bang_iff)
    with True ne ih [of True] show ?thesis by simp
  next
    case False
    with ne ih [of b] show ?thesis by simp
  qed
qed

lemma isValid_first_equal:
  assumes "actual \<notin> set pre" "(CHR ''!'' # actual) \<notin> set pre"
  shows "isValid (pre @ actual # post) actual"
proof -
  from isValid_loop_skip [OF assms] obtain b' where
    "isValid_loop (pre @ actual # post) actual False = isValid_loop (actual # post) actual b'"
    by blast
  then show ?thesis by (simp add: isValid_def)
qed

lemma isValid_first_denied:
  assumes "actual \<notin> set pre" "(CHR ''!'' # actual) \<notin> set pre"
  shows "\<not> isValid (pre @ (CHR ''!'' # actual) # post) actual"
proof -
  from isValid_loop_skip [OF assms] obtain b' where
    "isValid_loop (pre @ (CHR ''!'' # actual) # post) actual False =
     isValid_loop ((CHR ''!'' # actual) # post) actual b'"
    by blast
  then show ?thesis by (simp add: isValid_def)
qed

lemma isValid_equal_not_denied:
  assumes "actual \<in> set items" "(CHR ''!'' # actual) \<notin> set items"
  shows "isValid items actual"
proof -
  from assms(1) obtain pre post where sp: "items = pre @ actual # post" "actual \<notin> set pre"
    by (auto dest: split_list_first)
  with assms(2) have "(CHR ''!'' # actual) \<notin> set pre" by simp
  with sp show ?thesis by (simp add: isValid_first_equal)
qed

lemma isValid_denied_not_equal:
  assumes "actual \<notin> set items" "(CHR ''!'' # actual) \<in> set items"
  shows "\<not> isValid items actual"
proof -
  from assms(2) obtain pre post where
    sp: "items = pre @ (CHR ''!'' # actual) # post" "(CHR ''!'' # actual) \<notin> set pre"
    by (auto dest: split_list_first)
  with assms(1) have "actual \<notin> set pre" by simp
  with sp show ?thesis by (simp add: isValid_first_denied)
qed

text \<open>
  Unless the list holds both \<open>actual\<close> and \<open>!\<close> followed by \<open>actual\<close>, the result is
  a function of the set of entries.
\<close>

lemma isValid_by_set:
  assumes "\<not> (actual \<in> set items \<and> (CHR ''!'' # actual) \<in> set items)"
  shows "isValid items actual =
           (actual \<in> set items \<or>
            ((CHR ''!'' # actual) \<notin> set items \<and> (\<exists>item \<in> set items. first_is_bang item)))"
proof (cases "actual \<in> set items")
  case True
  with assms show ?thesis by (simp add: isValid_equal_not_denied)
next
  case False
  show ?thesis
  proof (cases "(CHR ''!'' # actual) \<in> set items")
    case True
    with False show ?thesis by (simp add: isValid_denied_not_equal)
  next
    case no: False
    with False show ?thesis by (simp add: isValid_def isValid_loop_no_decisive)
  qed
qed

text \<open>
  C5. When no entry of the declarations begins with \<open>!\<close>, \<open>isValid\<close> is list
  membership of \<open>actual\<close>; on the empty list it is false for every \<open>actual\<close>.
\<close>

theorem isValid_plain_iff_member:
  "((\<forall>item \<in> set items. \<not> first_is_bang item) \<longrightarrow>
      isValid items actual = (actual \<in> set items)) \<and>
   \<not> isValid [] actual"
  by (simp add: isValid_def isValid_loop_plain)

theorem isValid_plain_iff_member_witness:
  "\<not> first_is_bang ''linux'' \<and> \<not> first_is_bang ''darwin'' \<and>
   isValid [''linux'', ''darwin''] ''darwin'' \<and> ''darwin'' \<in> set [''linux'', ''darwin''] \<and>
   \<not> isValid [''linux'', ''darwin''] ''win32'' \<and> ''win32'' \<notin> set [''linux'', ''darwin'']"
  using isValid_plain_iff_member [of "[''linux'', ''darwin'']" "''darwin''"]
    isValid_plain_iff_member [of "[''linux'', ''darwin'']" "''win32''"]
  by simp

text \<open>
  C6, as stated, fails: on a list of blacklist entries only, an entry equal to
  \<open>actual\<close> returns true although a later entry denies \<open>actual\<close>. Here every entry
  begins with \<open>!\<close>, \<open>''!a''\<close> is the second entry without its \<open>!\<close>, and the result is
  true.
\<close>

theorem isValid_blacklist_only_counterexample:
  "[''!a'', ''!!a''] \<noteq> [] \<and> first_is_bang ''!a'' \<and> first_is_bang ''!!a'' \<and>
   ''!a'' = slice1 ''!!a'' \<and> isValid [''!a'', ''!!a''] ''!a''"
  by (simp add: isValid_def)

lemma isValid_decided_by_first:
  "isValid items actual =
     (if CHR ''!'' # actual \<in> set items
      then actual \<in> set (takeWhile (\<lambda>item. item \<noteq> CHR ''!'' # actual) items)
      else actual \<in> set items \<or> (\<exists>item \<in> set items. first_is_bang item))"
proof (cases "CHR ''!'' # actual \<in> set items")
  case False
  then show ?thesis
    by (simp add: isValid_by_set)
next
  case True
  then obtain pre post where
    sp: "items = pre @ (CHR ''!'' # actual) # post" "(CHR ''!'' # actual) \<notin> set pre"
    by (auto dest: split_list_first)
  then have tw: "takeWhile (\<lambda>item. item \<noteq> CHR ''!'' # actual) items = pre"
    by (simp add: takeWhile_eq_all_conv [THEN iffD2] takeWhile_append)
  show ?thesis
  proof (cases "actual \<in> set pre")
    case inpre: True
    then obtain p1 p2 where p: "pre = p1 @ actual # p2" "actual \<notin> set p1"
      by (auto dest: split_list_first)
    with sp(2) have "(CHR ''!'' # actual) \<notin> set p1" by simp
    with p(2) have "isValid (p1 @ actual # (p2 @ (CHR ''!'' # actual) # post)) actual"
      by (rule isValid_first_equal)
    with sp(1) p(1) have "isValid items actual" by simp
    with True tw inpre show ?thesis by simp
  next
    case notpre: False
    with sp have "\<not> isValid items actual"
      by (simp add: isValid_first_denied)
    with True tw notpre show ?thesis by simp
  qed
qed

lemma bang_entry_iff_stripped:
  assumes "\<forall>item \<in> set items. first_is_bang item"
  shows "(CHR ''!'' # actual \<in> set items) = (actual \<in> slice1 ` set items)"
proof
  assume "CHR ''!'' # actual \<in> set items"
  then have "slice1 (CHR ''!'' # actual) \<in> slice1 ` set items"
    by (rule imageI)
  then show "actual \<in> slice1 ` set items" by simp
next
  assume "actual \<in> slice1 ` set items"
  then obtain item where it: "item \<in> set items" "actual = slice1 item"
    by blast
  with assms have "first_is_bang item" by blast
  with it(2) have "item = CHR ''!'' # actual"
    by (simp add: slice1_bang_iff)
  with it(1) show "CHR ''!'' # actual \<in> set items" by simp
qed

text \<open>
  C6, amended. For a non-empty list in which every entry begins with \<open>!\<close>, \<open>isValid\<close>
  is true if and only if \<open>actual\<close> is none of the entries with its leading \<open>!\<close>
  removed, or an entry equal to \<open>actual\<close> as a whole stands before the first entry
  that is \<open>!\<close> followed by \<open>actual\<close>.
\<close>

theorem isValid_blacklist_only:
  assumes "items \<noteq> []" and "\<forall>item \<in> set items. first_is_bang item"
  shows "isValid items actual =
           (actual \<notin> slice1 ` set items \<or>
            actual \<in> set (takeWhile (\<lambda>item. item \<noteq> CHR ''!'' # actual) items))"
proof -
  from assms(1) obtain x where "x \<in> set items"
    by (cases items) auto
  with assms(2) have some: "\<exists>item \<in> set items. first_is_bang item"
    by blast
  from assms(2) have strip: "(CHR ''!'' # actual \<in> set items) = (actual \<in> slice1 ` set items)"
    by (rule bang_entry_iff_stripped)
  show ?thesis
  proof (cases "CHR ''!'' # actual \<in> set items")
    case True
    with strip show ?thesis
      by (simp add: isValid_decided_by_first)
  next
    case False
    with strip some show ?thesis
      by (simp add: isValid_decided_by_first)
  qed
qed

theorem isValid_blacklist_only_witness:
  "[''!linux'', ''!win32''] \<noteq> [] \<and>
   first_is_bang ''!linux'' \<and> first_is_bang ''!win32'' \<and>
   \<not> isValid [''!linux'', ''!win32''] ''win32'' \<and>
   ''win32'' \<in> slice1 ` set [''!linux'', ''!win32''] \<and>
   ''win32'' \<notin> set (takeWhile (\<lambda>item. item \<noteq> CHR ''!'' # ''win32'') [''!linux'', ''!win32'']) \<and>
   isValid [''!linux'', ''!win32''] ''darwin'' \<and>
   ''darwin'' \<notin> slice1 ` set [''!linux'', ''!win32''] \<and>
   [''!a'', ''!!a''] \<noteq> [] \<and> first_is_bang ''!a'' \<and> first_is_bang ''!!a'' \<and>
   isValid [''!a'', ''!!a''] ''!a'' \<and>
   ''!a'' \<in> set (takeWhile (\<lambda>item. item \<noteq> CHR ''!'' # ''!a'') [''!a'', ''!!a''])"
  using isValid_blacklist_only [of "[''!linux'', ''!win32'']" "''win32''"]
    isValid_blacklist_only [of "[''!linux'', ''!win32'']" "''darwin''"]
    isValid_blacklist_only [of "[''!a'', ''!!a'']" "''!a''"]
  by simp

text \<open>
  C10, as stated, fails: an entry equal to \<open>actual\<close> does not help when an earlier
  entry is \<open>!\<close> followed by \<open>actual\<close>. The second entry below is \<open>actual\<close>, and the
  result is false.
\<close>

theorem isValid_equal_entry_counterexample:
  "[''!!a'', ''!a''] ! 1 = ''!a'' \<and> \<not> isValid [''!!a'', ''!a''] ''!a''"
  by (simp add: isValid_def)

text \<open>
  C10, amended. If entry \<open>i\<close> is equal to \<open>actual\<close> and no entry before it is \<open>!\<close>
  followed by \<open>actual\<close>, then \<open>isValid\<close> is true, also when that entry begins with
  \<open>!\<close>: equality of the whole string is tested before the prefix is looked at, so
  \<open>isValid(["!linux"], "!linux")\<close> is true.
\<close>

theorem isValid_equal_entry:
  "(i < length items \<and> items ! i = actual \<and>
      (\<forall>j < i. items ! j \<noteq> CHR ''!'' # actual) \<longrightarrow> isValid items actual) \<and>
   isValid [''!linux''] ''!linux''"
proof
  show "i < length items \<and> items ! i = actual \<and>
      (\<forall>j < i. items ! j \<noteq> CHR ''!'' # actual) \<longrightarrow> isValid items actual"
  proof
    assume a: "i < length items \<and> items ! i = actual \<and> (\<forall>j < i. items ! j \<noteq> CHR ''!'' # actual)"
    then have mem: "actual \<in> set items"
      by auto
    then obtain pre post where sp: "items = pre @ actual # post" "actual \<notin> set pre"
      by (auto dest: split_list_first)
    have "length pre \<le> i"
    proof (rule ccontr)
      assume "\<not> length pre \<le> i"
      then have "i < length pre" by simp
      with sp(1) have "items ! i = pre ! i"
        by (simp add: nth_append)
      with a \<open>i < length pre\<close> sp(2) show False
        by (metis nth_mem)
    qed
    have "(CHR ''!'' # actual) \<notin> set pre"
    proof
      assume "(CHR ''!'' # actual) \<in> set pre"
      then obtain j where j: "j < length pre" "pre ! j = CHR ''!'' # actual"
        by (auto simp: in_set_conv_nth)
      with sp(1) have "items ! j = CHR ''!'' # actual"
        by (simp add: nth_append)
      moreover from j(1) \<open>length pre \<le> i\<close> have "j < i" by simp
      ultimately show False using a by blast
    qed
    with sp show "isValid items actual"
      by (simp add: isValid_first_equal)
  qed
  show "isValid [''!linux''] ''!linux''"
    by (simp add: isValid_def)
qed

theorem isValid_equal_entry_witness:
  "(1::nat) < length [''!win32'', ''!linux''] \<and> [''!win32'', ''!linux''] ! 1 = ''!linux'' \<and>
   [''!win32'', ''!linux''] ! 0 \<noteq> CHR ''!'' # ''!linux'' \<and>
   isValid [''!win32'', ''!linux''] ''!linux''"
  using isValid_equal_entry [of 1 "[''!win32'', ''!linux'']" "''!linux''"]
  by simp

text \<open>
  C1, as stated, fails: a plain entry equal to \<open>actual\<close> loses against an earlier
  \<open>!\<close> entry for \<open>actual\<close>, and the two orders of the same two entries give different
  results.
\<close>

theorem isValid_order_counterexample:
  "\<not> first_is_bang ''linux'' \<and> ''linux'' \<in> set [''!linux'', ''linux''] \<and>
   \<not> isValid [''!linux'', ''linux''] ''linux'' \<and>
   mset [''linux'', ''!linux''] = mset [''!linux'', ''linux''] \<and>
   isValid [''linux'', ''!linux''] ''linux''"
  by (simp add: isValid_def)

text \<open>
  C1, amended. Of the entries equal to \<open>actual\<close> or to \<open>!\<close> followed by \<open>actual\<close>, the
  first one in the list decides: an entry equal to \<open>actual\<close> gives true when no \<open>!\<close>
  entry for \<open>actual\<close> comes before it, and a \<open>!\<close> entry for \<open>actual\<close> gives false when
  no entry equal to \<open>actual\<close> comes before it. Consequently the result is the same for
  every permutation of a list that does not hold both kinds of entry.
\<close>

theorem isValid_first_decisive_entry:
  "(actual \<notin> set pre \<and> (CHR ''!'' # actual) \<notin> set pre \<longrightarrow>
      isValid (pre @ actual # post) actual \<and>
      \<not> isValid (pre @ (CHR ''!'' # actual) # post) actual) \<and>
   (\<not> (actual \<in> set items \<and> (CHR ''!'' # actual) \<in> set items) \<and> mset items' = mset items \<longrightarrow>
      isValid items' actual = isValid items actual)"
proof (intro conjI impI)
  assume "actual \<notin> set pre \<and> (CHR ''!'' # actual) \<notin> set pre"
  then show "isValid (pre @ actual # post) actual"
    by (simp add: isValid_first_equal)
next
  assume "actual \<notin> set pre \<and> (CHR ''!'' # actual) \<notin> set pre"
  then show "\<not> isValid (pre @ (CHR ''!'' # actual) # post) actual"
    by (simp add: isValid_first_denied)
next
  assume a: "\<not> (actual \<in> set items \<and> (CHR ''!'' # actual) \<in> set items) \<and> mset items' = mset items"
  then have eq: "set items' = set items"
    by (auto dest: mset_eq_setD)
  with a have "\<not> (actual \<in> set items' \<and> (CHR ''!'' # actual) \<in> set items')"
    by simp
  then have "isValid items' actual =
           (actual \<in> set items' \<or>
            ((CHR ''!'' # actual) \<notin> set items' \<and> (\<exists>item \<in> set items'. first_is_bang item)))"
    by (rule isValid_by_set)
  moreover from a have "isValid items actual =
           (actual \<in> set items \<or>
            ((CHR ''!'' # actual) \<notin> set items \<and> (\<exists>item \<in> set items. first_is_bang item)))"
    by (simp add: isValid_by_set)
  ultimately show "isValid items' actual = isValid items actual"
    using eq by simp
qed

theorem isValid_first_decisive_entry_witness:
  "''darwin'' \<notin> set [''win32''] \<and> (CHR ''!'' # ''darwin'') \<notin> set [''win32''] \<and>
   isValid ([''win32''] @ ''darwin'' # [''!darwin'']) ''darwin'' \<and>
   \<not> isValid ([''win32''] @ (CHR ''!'' # ''darwin'') # [''darwin'']) ''darwin'' \<and>
   \<not> (''darwin'' \<in> set [''!linux'', ''win32''] \<and> (CHR ''!'' # ''darwin'') \<in> set [''!linux'', ''win32'']) \<and>
   mset [''win32'', ''!linux''] = mset [''!linux'', ''win32''] \<and>
   isValid [''win32'', ''!linux''] ''darwin'' = isValid [''!linux'', ''win32''] ''darwin''"
  using isValid_first_decisive_entry [of "''darwin''" "[''win32'']" "[''!darwin'']"
      "[''!linux'', ''win32'']" "[''win32'', ''!linux'']"]
    isValid_first_decisive_entry [of "''darwin''" "[''win32'']" "[''darwin'']"
      "[''!linux'', ''win32'']" "[''win32'', ''!linux'']"]
  by simp

section \<open>The checker routes its findings through the policy\<close>

lemma pushError_missing:
  "reference info = None \<Longrightarrow>
   pushError info msg l w = (Inl (InvariantViolation ''expected package reference''), w)"
  by (simp add: pushError_def)

lemma pushError_required:
  "reference info = Some r \<Longrightarrow> \<not> optional r \<Longrightarrow>
   pushError info msg l w =
     (Inr (l\<lparr>didError := True\<rparr>), w @ [ReporterError (human info @ '': '' @ msg)])"
  by (simp add: pushError_def)

lemma pushError_optional:
  "reference info = Some r \<Longrightarrow> optional r \<Longrightarrow>
   pushError info msg l w =
     (Inr (l\<lparr>didIgnore := True\<rparr>),
      w @ [RefAddIgnore True, ReporterWarn (human info @ '': '' @ msg)] @
        (if didIgnore l then [] else [excluded_info (human info)]))"
  by (simp add: pushError_def excluded_info_def Let_def)

lemma route_findings_append:
  "route_findings info (xs @ ys) l w =
     (case route_findings info xs l w of
        (Inl e, w') \<Rightarrow> (Inl e, w')
      | (Inr l', w') \<Rightarrow> route_findings info ys l' w')"
  by (induction info xs l w rule: route_findings.induct)
    (auto split: prod.splits sum.splits)

lemma check_os_route:
  "check_os env info l w = route_findings info (spec_os_findings env info) l w"
  by (auto simp: check_os_def spec_os_findings_def isValidPlatform_def
      split: option.splits prod.splits sum.splits)

lemma check_cpu_route:
  "check_cpu env info l w = route_findings info (spec_cpu_findings env info) l w"
  by (auto simp: check_cpu_def spec_cpu_findings_def isValidArch_def
      split: option.splits prod.splits sum.splits)

lemma check_engine_route:
  "check_engine lib env info entry l w =
     route_findings info (spec_engine_findings lib env entry) l w"
  by (auto simp: check_engine_def spec_engine_findings_def warn_event_def Let_def
      split: option.splits prod.splits sum.splits)

lemma check_engines_loop_route:
  "check_engines_loop lib env info es l w =
     route_findings info (concat (map (spec_engine_findings lib env) es)) l w"
proof (induction es arbitrary: l w)
  case Nil
  show ?case by simp
next
  case (Cons entry es)
  show ?case
    by (simp add: check_engine_route route_findings_append Cons.IH
        split: prod.splits sum.splits)
qed

lemma check_engines_route:
  "check_engines lib env info l w =
     route_findings info (spec_engines_findings lib env info) l w"
  by (simp add: check_engines_def spec_engines_findings_def check_engines_loop_route
      split: option.splits)

lemma check_route:
  "check lib env info w =
     (case route_findings info (spec_findings lib env info)
             \<lparr>didIgnore = False, didError = False\<rparr> w of
        (Inl e, w') \<Rightarrow> (Inl e, w')
      | (Inr l', w') \<Rightarrow>
          if didError l' then (Inl (MessageError ''Found incompatible module''), w')
          else (Inr (), w'))"
  by (simp add: check_def spec_findings_def check_os_route check_cpu_route
      check_engines_route route_findings_append split: prod.splits sum.splits)

lemma reached_Nil [simp]: "reached [] = []"
  by (simp add: reached_def)

lemma reached_Cons [simp]:
  "reached (f # fs) = (if is_thrown f then [] else f # reached fs)"
  by (simp add: reached_def)

lemma first_thrown_None_iff: "(first_thrown fs = None) = (\<forall>f \<in> set fs. \<not> is_thrown f)"
  by (induction fs rule: first_thrown.induct) simp_all

lemma reached_no_thrown: "first_thrown fs = None \<Longrightarrow> reached fs = fs"
  by (induction fs rule: first_thrown.induct) simp_all

lemma first_thrown_split:
  "\<forall>f \<in> set pre. \<not> is_thrown f \<Longrightarrow>
   first_thrown (pre @ Thrown m # rest) = Some m \<and> reached (pre @ Thrown m # rest) = pre"
  by (induction pre rule: first_thrown.induct) simp_all

lemma route_findings_missing_advisories:
  "reference info = None \<Longrightarrow> \<forall>f \<in> set pre. is_advisory f \<Longrightarrow>
   route_findings info (pre @ rest) l w =
     route_findings info rest l (w @ map (warn_event (human info)) pre)"
  by (induction info pre l w rule: route_findings.induct) simp_all

lemma route_findings_required:
  "reference info = Some r \<Longrightarrow> \<not> optional r \<Longrightarrow>
   route_findings info fs l w =
     (case first_thrown fs of
        Some m \<Rightarrow> Inl (SemverError m)
      | None \<Rightarrow> Inr (l\<lparr>didError := didError l \<or> (\<exists>f \<in> set fs. is_violation f)\<rparr>),
      w @ map (required_event (human info)) (reached fs))"
  by (induction info fs l w rule: route_findings.induct)
    (auto simp: pushError_required required_event_def warn_event_def split: option.splits)

lemma route_findings_optional:
  "reference info = Some r \<Longrightarrow> optional r \<Longrightarrow>
   route_findings info fs l w =
     (case first_thrown fs of
        Some m \<Rightarrow> Inl (SemverError m)
      | None \<Rightarrow> Inr (l\<lparr>didIgnore := didIgnore l \<or> (\<exists>f \<in> set fs. is_violation f)\<rparr>),
      w @ optional_events (human info) (didIgnore l) (reached fs))"
  by (induction info fs l w rule: route_findings.induct)
    (auto simp: pushError_optional warn_event_def split: option.splits)

lemma check_required:
  "reference info = Some r \<Longrightarrow> \<not> optional r \<Longrightarrow>
   check lib env info w =
     (case first_thrown (spec_findings lib env info) of
        Some m \<Rightarrow> Inl (SemverError m)
      | None \<Rightarrow>
          if \<exists>f \<in> set (spec_findings lib env info). is_violation f
          then Inl (MessageError ''Found incompatible module'') else Inr (),
      w @ map (required_event (human info)) (reached (spec_findings lib env info)))"
  by (simp add: check_route route_findings_required split: option.splits)

lemma check_optional:
  "reference info = Some r \<Longrightarrow> optional r \<Longrightarrow>
   check lib env info w =
     (case first_thrown (spec_findings lib env info) of
        Some m \<Rightarrow> Inl (SemverError m)
      | None \<Rightarrow> Inr (),
      w @ optional_events (human info) False (reached (spec_findings lib env info)))"
  by (simp add: check_route route_findings_optional split: option.splits)

lemma check_missing_stop:
  "reference info = None \<Longrightarrow> \<forall>f \<in> set pre. is_advisory f \<Longrightarrow>
   spec_findings lib env info = pre @ rest \<Longrightarrow>
   check lib env info w =
     (case route_findings info rest \<lparr>didIgnore = False, didError = False\<rparr>
             (w @ map (warn_event (human info)) pre) of
        (Inl e, w') \<Rightarrow> (Inl e, w')
      | (Inr l', w') \<Rightarrow>
          if didError l' then (Inl (MessageError ''Found incompatible module''), w')
          else (Inr (), w'))"
  by (simp add: check_route route_findings_missing_advisories)

lemma optional_events_seen:
  "optional_events h True fs = concat (map (optional_later_events h) fs)"
  by (induction fs) (simp_all add: optional_later_events_def)

lemma optional_events_no_violation:
  "\<forall>f \<in> set fs. \<not> is_violation f \<Longrightarrow> optional_events h seen fs = map (warn_event h) fs"
  by (induction fs) simp_all

lemma optional_events_append:
  "optional_events h seen (xs @ ys) =
     optional_events h seen xs @
     optional_events h (seen \<or> (\<exists>f \<in> set xs. is_violation f)) ys"
  by (induction xs arbitrary: seen) auto

lemma optional_events_first:
  "\<forall>f \<in> set pre. \<not> is_violation f \<Longrightarrow>
   optional_events h False (pre @ Violation v # rest) =
     map (warn_event h) pre @
     [RefAddIgnore True, warn_event h (Violation v), excluded_info h] @
     concat (map (optional_later_events h) rest)"
  by (simp add: optional_events_append optional_events_no_violation optional_events_seen)

lemma optional_events_no_error:
  "filter is_reporter_error (optional_events h seen fs) = []"
  by (induction fs arbitrary: seen) (auto simp: warn_event_def excluded_info_def)

lemma optional_events_warnings:
  "filter is_reporter_warn (optional_events h seen fs) = map (warn_event h) fs"
  by (induction fs arbitrary: seen) (auto simp: warn_event_def excluded_info_def)

lemma optional_events_marks:
  "filter is_ref_add_ignore (optional_events h seen fs) =
     replicate (length (filter is_violation fs)) (RefAddIgnore True)"
  by (induction fs arbitrary: seen) (auto simp: warn_event_def excluded_info_def)

lemma count_later_marks:
  "count_list (concat (map (optional_later_events h) fs)) (RefAddIgnore True) =
     length (filter is_violation fs)"
  by (induction fs) (auto simp: optional_later_events_def warn_event_def)

lemma later_no_info:
  "filter is_reporter_info (concat (map (optional_later_events h) fs)) = []"
  by (induction fs) (auto simp: optional_later_events_def warn_event_def)

lemma warn_no_info:
  "filter is_reporter_info (map (warn_event h) fs) = []"
  by (induction fs) (auto simp: warn_event_def)

lemma warn_no_marks:
  "count_list (map (warn_event h) fs) (RefAddIgnore True) = 0"
  by (induction fs) (auto simp: warn_event_def)

lemma reference_after_append:
  "reference_after (xs @ ys) ref = reference_after ys (reference_after xs ref)"
  by (induction xs ref rule: reference_after.induct) simp_all

lemma reference_after_warns:
  "reference_after (map (warn_event h) fs) ref = ref"
  by (induction fs) (auto simp: warn_event_def)

lemma addIgnore_twice: "addIgnore True (addIgnore True ref) = addIgnore True ref"
  by (simp add: addIgnore_def)

lemma reference_after_later:
  "reference_after (concat (map (optional_later_events h) fs)) (addIgnore True ref) =
     addIgnore True ref"
  by (induction fs) (auto simp: optional_later_events_def warn_event_def addIgnore_twice)

lemma pushError_frame:
  "pushError info msg l (w @ u) =
     (fst (pushError info msg l u), w @ snd (pushError info msg l u))"
  by (simp add: pushError_def Let_def split: option.splits)

lemma route_findings_frame_append:
  "route_findings info fs l (w @ u) =
     (fst (route_findings info fs l u), w @ snd (route_findings info fs l u))"
proof (induction fs arbitrary: l u)
  case Nil
  show ?case by simp
next
  case (Cons f fs)
  show ?case
  proof (cases f)
    case (Violation v)
    obtain res u' where p: "pushError info v l u = (res, u')"
      by (cases "pushError info v l u")
    with pushError_frame [of info v l w u] have pw: "pushError info v l (w @ u) = (res, w @ u')"
      by simp
    show ?thesis
    proof (cases res)
      case (Inl e)
      with Violation p pw show ?thesis by simp
    next
      case (Inr l')
      with Violation p pw Cons.IH [of l' u'] show ?thesis by simp
    qed
  next
    case (Advisory a)
    with Cons.IH [of l "u @ [warn_event (human info) (Advisory a)]"] show ?thesis
      by simp
  next
    case (Thrown m)
    then show ?thesis by simp
  qed
qed

lemma route_findings_frame:
  "route_findings info fs l w =
     (fst (route_findings info fs l []), w @ snd (route_findings info fs l []))"
  using route_findings_frame_append [of info fs l w "[]"] by simp

section \<open>The claims about \<open>check\<close> and \<open>init\<close>\<close>

text \<open>
  C2, as stated, fails: on an optional manifest with an engine entry for \<open>modules\<close>,
  whose installed version is no semantic version, \<open>semver.satisfies\<close> throws and the
  call does not return normally.
\<close>

theorem check_optional_returns_counterexample:
  "reference native_pkg = Some \<lparr>optional = True, excluded = False\<rparr> \<and> optional \<lparr>optional = True, excluded = False\<rparr> \<and>
   check sample_libraries win32_host native_pkg [] =
     (Inl (SemverError ''Invalid Version: 108''),
      [RefAddIgnore True,
       ReporterWarn ''native@4.0.0: The platform win32 is incompatible with this module.'',
       ReporterInfo (''native@4.0.0 is an optional dependency and failed compatibility check. '' @
         ''Excluding it from installation.''),
       RefAddIgnore True,
       ReporterWarn
         ''native@4.0.0: The engine node is incompatible with this module. Expected version 99.0.0.''])"
  by (simp add: check_def check_os_def check_cpu_def check_engines_def check_engine_def
      pushError_def isValidPlatform_def isValid_def resolve_alias_def aliases_def human_def)

text \<open>
  C2, amended. On a manifest whose reference is present and optional, \<open>check\<close> never
  throws the \<open>MessageError\<close>. Among the events \<open>t\<close> it leaves behind there is no
  error-level message; the warnings are exactly the findings it got to, each violation
  (and each advisory) as its own warning, in order; there is one \<open>addIgnore(true)\<close> for
  every violation and no other call of \<open>addIgnore\<close>. The call returns normally whenever
  \<open>semver.satisfies\<close> throws on none of the engine entries.
\<close>

theorem check_optional_no_compatibility_failure:
  "reference info = Some r \<and> optional r \<longrightarrow>
     (\<exists>t. snd (check lib env info w) = w @ t \<and>
          filter is_reporter_error t = [] \<and>
          filter is_reporter_warn t =
            map (warn_event (human info)) (reached (spec_findings lib env info)) \<and>
          filter is_ref_add_ignore t =
            replicate (length (filter is_violation (reached (spec_findings lib env info))))
              (RefAddIgnore True)) \<and>
     (\<forall>m. fst (check lib env info w) \<noteq> Inl (MessageError m)) \<and>
     (first_thrown (spec_findings lib env info) = None \<longrightarrow>
        fst (check lib env info w) = Inr ())"
proof
  assume a: "reference info = Some r \<and> optional r"
  let ?fs = "spec_findings lib env info"
  let ?t = "optional_events (human info) False (reached ?fs)"
  from a have run: "check lib env info w =
     (case first_thrown ?fs of Some m \<Rightarrow> Inl (SemverError m) | None \<Rightarrow> Inr (), w @ ?t)"
    by (simp add: check_optional)
  then have "snd (check lib env info w) = w @ ?t"
    by simp
  moreover have "filter is_reporter_error ?t = []"
    by (rule optional_events_no_error)
  moreover have "filter is_reporter_warn ?t = map (warn_event (human info)) (reached ?fs)"
    by (rule optional_events_warnings)
  moreover have "filter is_ref_add_ignore ?t =
      replicate (length (filter is_violation (reached ?fs))) (RefAddIgnore True)"
    by (rule optional_events_marks)
  ultimately have events: "\<exists>t. snd (check lib env info w) = w @ t \<and>
          filter is_reporter_error t = [] \<and>
          filter is_reporter_warn t = map (warn_event (human info)) (reached ?fs) \<and>
          filter is_ref_add_ignore t =
            replicate (length (filter is_violation (reached ?fs))) (RefAddIgnore True)"
    by blast
  from run have never: "\<forall>m. fst (check lib env info w) \<noteq> Inl (MessageError m)"
    by (simp split: option.splits)
  from run have normal: "first_thrown ?fs = None \<longrightarrow> fst (check lib env info w) = Inr ()"
    by simp
  from events never normal
  show "(\<exists>t. snd (check lib env info w) = w @ t \<and>
          filter is_reporter_error t = [] \<and>
          filter is_reporter_warn t = map (warn_event (human info)) (reached ?fs) \<and>
          filter is_ref_add_ignore t =
            replicate (length (filter is_violation (reached ?fs))) (RefAddIgnore True)) \<and>
     (\<forall>m. fst (check lib env info w) \<noteq> Inl (MessageError m)) \<and>
     (first_thrown ?fs = None \<longrightarrow> fst (check lib env info w) = Inr ())"
    by blast
qed

theorem check_optional_no_compatibility_failure_witness:
  "reference optional_pkg = Some \<lparr>optional = True, excluded = False\<rparr> \<and> optional \<lparr>optional = True, excluded = False\<rparr> \<and>
   first_thrown (spec_findings sample_libraries win32_host optional_pkg) = None \<and>
   fst (check sample_libraries win32_host optional_pkg []) = Inr () \<and>
   (\<exists>t. snd (check sample_libraries win32_host optional_pkg []) = t \<and>
        filter is_reporter_error t = [] \<and>
        filter is_reporter_warn t =
          [ReporterWarn ''fsevents@1.0.0: The platform win32 is incompatible with this module.'',
           ReporterWarn
             ''fsevents@1.0.0: The engine node is incompatible with this module. Expected version 99.0.0.''] \<and>
        filter is_ref_add_ignore t = [RefAddIgnore True, RefAddIgnore True])"
  using check_optional_no_compatibility_failure [where info = optional_pkg
      and r = "\<lparr>optional = True, excluded = False\<rparr>" and env = win32_host and lib = sample_libraries and w = "[]"]
  by (simp add: spec_findings_def spec_os_findings_def spec_cpu_findings_def
      spec_engines_findings_def spec_engine_findings_def isValid_def resolve_alias_def
      aliases_def ignore_def warn_event_def human_def)

text \<open>
  What C2 and C3 leave open: when \<open>semver.satisfies\<close> throws on an engine entry, its
  exception ends the call, whatever the reference is, after the events of the findings
  before that entry.
\<close>

lemma check_semver_throws:
  assumes "reference info = Some r" and "first_thrown (spec_findings lib env info) = Some m"
  shows "fst (check lib env info w) = Inl (SemverError m)"
  using assms by (cases "optional r") (simp_all add: check_optional check_required)

text \<open>
  C3, as stated, fails: on a manifest that is not optional, with a violation of the OS
  and of the node engine, the call ends with the exception of \<open>semver.satisfies\<close> on the
  entry for \<open>modules\<close>, not with the \<open>MessageError\<close>, and the entry after it is not
  looked at.
\<close>

theorem check_required_fatal_counterexample:
  "reference (native_pkg\<lparr>reference := Some \<lparr>optional = False, excluded = False\<rparr>\<rparr>) = Some \<lparr>optional = False, excluded = False\<rparr> \<and> \<not> optional \<lparr>optional = False, excluded = False\<rparr> \<and>
   spec_os_findings win32_host (native_pkg\<lparr>reference := Some \<lparr>optional = False, excluded = False\<rparr>\<rparr>) =
     [Violation ''The platform win32 is incompatible with this module.''] \<and>
   check sample_libraries win32_host (native_pkg\<lparr>reference := Some \<lparr>optional = False, excluded = False\<rparr>\<rparr>) [] =
     (Inl (SemverError ''Invalid Version: 108''),
      [ReporterError ''native@4.0.0: The platform win32 is incompatible with this module.'',
       ReporterError
         ''native@4.0.0: The engine node is incompatible with this module. Expected version 99.0.0.''])"
  by (simp add: check_def check_os_def check_cpu_def check_engines_def check_engine_def
      pushError_def isValidPlatform_def isValid_def resolve_alias_def aliases_def human_def
      spec_os_findings_def)

text \<open>
  C3, amended. On a manifest whose reference is present and not optional, and on whose
  engine entries \<open>semver.satisfies\<close> does not throw, \<open>check\<close> throws the \<open>MessageError\<close>
  "Found incompatible module" if and only if the OS, the CPU or the engines step found a
  violation, and returns normally otherwise. In both cases the events left behind are
  those of all three steps, in order, every violation as an error-level message: the
  exception comes after the last step, not at the first violation.
\<close>

theorem check_required_fatal_iff_violation:
  "reference info = Some r \<and> \<not> optional r \<and>
   first_thrown (spec_os_findings env info @ spec_cpu_findings env info @
                 spec_engines_findings lib env info) = None \<longrightarrow>
     check lib env info w =
       (if \<exists>f \<in> set (spec_os_findings env info @ spec_cpu_findings env info @
                       spec_engines_findings lib env info). is_violation f
        then Inl (MessageError ''Found incompatible module'') else Inr (),
        w @ map (required_event (human info))
              (spec_os_findings env info @ spec_cpu_findings env info @
               spec_engines_findings lib env info))"
proof
  assume a: "reference info = Some r \<and> \<not> optional r \<and>
   first_thrown (spec_os_findings env info @ spec_cpu_findings env info @
                 spec_engines_findings lib env info) = None"
  then have none: "first_thrown (spec_findings lib env info) = None"
    by (simp only: spec_findings_def)
  then have all: "reached (spec_findings lib env info) = spec_findings lib env info"
    by (rule reached_no_thrown)
  from a none all have "check lib env info w =
     (if \<exists>f \<in> set (spec_findings lib env info). is_violation f
      then Inl (MessageError ''Found incompatible module'') else Inr (),
      w @ map (required_event (human info)) (spec_findings lib env info))"
    by (simp add: check_required)
  then show "check lib env info w =
       (if \<exists>f \<in> set (spec_os_findings env info @ spec_cpu_findings env info @
                       spec_engines_findings lib env info). is_violation f
        then Inl (MessageError ''Found incompatible module'') else Inr (),
        w @ map (required_event (human info))
              (spec_os_findings env info @ spec_cpu_findings env info @
               spec_engines_findings lib env info))"
    by (simp only: spec_findings_def)
qed

theorem check_required_fatal_iff_violation_witness:
  "reference required_pkg = Some \<lparr>optional = False, excluded = False\<rparr> \<and> \<not> optional \<lparr>optional = False, excluded = False\<rparr> \<and>
   first_thrown (spec_os_findings win32_host required_pkg @
                 spec_cpu_findings win32_host required_pkg @
                 spec_engines_findings sample_libraries win32_host required_pkg) = None \<and>
   check sample_libraries win32_host required_pkg [] =
     (Inl (MessageError ''Found incompatible module''),
      [ReporterError ''left-pad@2.0.0: The platform win32 is incompatible with this module.'',
       ReporterError
         ''left-pad@2.0.0: The CPU architecture x64 is incompatible with this module.'',
       ReporterWarn ''left-pad@2.0.0: The engine someUnknownTool appears to be invalid.'',
       ReporterError
         ''left-pad@2.0.0: The engine node is incompatible with this module. Expected version 99.0.0.'']) \<and>
   reference plain_pkg = Some \<lparr>optional = False, excluded = False\<rparr> \<and>
   first_thrown (spec_os_findings win32_host plain_pkg @
                 spec_cpu_findings win32_host plain_pkg @
                 spec_engines_findings sample_libraries win32_host plain_pkg) = None \<and>
   check sample_libraries win32_host plain_pkg [] = (Inr (), [])"
  using check_required_fatal_iff_violation [where info = required_pkg
      and r = "\<lparr>optional = False, excluded = False\<rparr>" and env = win32_host and lib = sample_libraries and w = "[]"]
    check_required_fatal_iff_violation [where info = plain_pkg
      and r = "\<lparr>optional = False, excluded = False\<rparr>" and env = win32_host and lib = sample_libraries and w = "[]"]
  by (simp add: spec_os_findings_def spec_cpu_findings_def spec_engines_findings_def
      spec_engine_findings_def isValid_def resolve_alias_def aliases_def ignore_def
      required_event_def warn_event_def human_def)

text \<open>
  C4, as stated, fails: \<open>invariant\<close> is called inside \<open>pushError\<close> only, so a manifest
  without reference whose declarations are all satisfied is checked without any fault.
\<close>

theorem check_missing_reference_counterexample:
  "reference (plain_pkg\<lparr>reference := None\<rparr>) = None \<and>
   check sample_libraries win32_host (plain_pkg\<lparr>reference := None\<rparr>) [] = (Inr (), [])"
  by (simp add: check_def check_os_def check_cpu_def check_engines_def check_engine_def
      isValidPlatform_def isValid_def resolve_alias_def aliases_def ignore_def)

text \<open>
  C4, amended. On a manifest whose reference is missing, \<open>check\<close> throws the invariant
  fault (not the \<open>MessageError\<close>) when it finds the first violation: only the advisory
  warnings found before that violation have been emitted, and nothing of what follows
  it is looked at. When the steps find advisories only, or nothing, the call returns
  normally.
\<close>

theorem check_missing_reference:
  "reference info = None \<longrightarrow>
     (spec_findings lib env info = pre @ Violation v # rest \<and>
      (\<forall>f \<in> set pre. is_advisory f) \<longrightarrow>
        check lib env info w =
          (Inl (InvariantViolation ''expected package reference''),
           w @ map (warn_event (human info)) pre)) \<and>
     ((\<forall>f \<in> set (spec_findings lib env info). is_advisory f) \<longrightarrow>
        check lib env info w =
          (Inr (), w @ map (warn_event (human info)) (spec_findings lib env info)))"
proof
  assume none: "reference info = None"
  have first: "spec_findings lib env info = pre @ Violation v # rest \<and>
      (\<forall>f \<in> set pre. is_advisory f) \<longrightarrow>
        check lib env info w =
          (Inl (InvariantViolation ''expected package reference''),
           w @ map (warn_event (human info)) pre)"
  proof
    assume "spec_findings lib env info = pre @ Violation v # rest \<and>
      (\<forall>f \<in> set pre. is_advisory f)"
    with none show "check lib env info w =
          (Inl (InvariantViolation ''expected package reference''),
           w @ map (warn_event (human info)) pre)"
      by (simp add: check_missing_stop [where pre = pre and rest = "Violation v # rest"]
          pushError_missing)
  qed
  have clean: "(\<forall>f \<in> set (spec_findings lib env info). is_advisory f) \<longrightarrow>
        check lib env info w =
          (Inr (), w @ map (warn_event (human info)) (spec_findings lib env info))"
  proof
    assume "\<forall>f \<in> set (spec_findings lib env info). is_advisory f"
    with none show "check lib env info w =
          (Inr (), w @ map (warn_event (human info)) (spec_findings lib env info))"
      by (simp add: check_missing_stop [where pre = "spec_findings lib env info" and rest = "[]"])
  qed
  from first clean
  show "(spec_findings lib env info = pre @ Violation v # rest \<and>
      (\<forall>f \<in> set pre. is_advisory f) \<longrightarrow>
        check lib env info w =
          (Inl (InvariantViolation ''expected package reference''),
           w @ map (warn_event (human info)) pre)) \<and>
     ((\<forall>f \<in> set (spec_findings lib env info). is_advisory f) \<longrightarrow>
        check lib env info w =
          (Inr (), w @ map (warn_event (human info)) (spec_findings lib env info)))"
    by blast
qed

theorem check_missing_reference_witness:
  "reference unresolved_pkg = None \<and>
   spec_findings sample_libraries win32_host unresolved_pkg =
     [Advisory ''The engine someUnknownTool appears to be invalid.''] @
     Violation ''The engine node is incompatible with this module. Expected version 99.0.0.'' #
     [Advisory ''The engine rhino appears to be invalid.''] \<and>
   is_advisory (Advisory ''The engine someUnknownTool appears to be invalid.'') \<and>
   check sample_libraries win32_host unresolved_pkg [] =
     (Inl (InvariantViolation ''expected package reference''),
      [ReporterWarn ''ghost@3.1.0: The engine someUnknownTool appears to be invalid.'']) \<and>
   reference (path_pkg\<lparr>reference := None\<rparr>) = None \<and>
   spec_findings sample_libraries win32_host (path_pkg\<lparr>reference := None\<rparr>) =
     [] @ Violation ''The engine node.length is incompatible with this module. Expected version *.'' # [] \<and>
   check sample_libraries win32_host (path_pkg\<lparr>reference := None\<rparr>) [] =
     (Inl (InvariantViolation ''expected package reference''), []) \<and>
   reference (unresolved_pkg\<lparr>engines := Some [(''rhino'', ''1.0.0'')]\<rparr>) = None \<and>
   spec_findings sample_libraries win32_host
       (unresolved_pkg\<lparr>engines := Some [(''rhino'', ''1.0.0'')]\<rparr>) =
     [Advisory ''The engine rhino appears to be invalid.''] \<and>
   check sample_libraries win32_host
       (unresolved_pkg\<lparr>engines := Some [(''rhino'', ''1.0.0'')]\<rparr>) [] =
     (Inr (), [ReporterWarn ''ghost@3.1.0: The engine rhino appears to be invalid.''])"
  using check_missing_reference [where info = unresolved_pkg and env = win32_host
      and lib = sample_libraries and w = "[]"
      and pre = "[Advisory ''The engine someUnknownTool appears to be invalid.'']"
      and v = "''The engine node is incompatible with this module. Expected version 99.0.0.''"
      and rest = "[Advisory ''The engine rhino appears to be invalid.'']"]
    check_missing_reference [where info = "path_pkg\<lparr>reference := None\<rparr>" and env = win32_host
      and lib = sample_libraries and w = "[]" and pre = "[]"
      and v = "''The engine node.length is incompatible with this module. Expected version *.''"
      and rest = "[]"]
    check_missing_reference [where
      info = "unresolved_pkg\<lparr>engines := Some [(''rhino'', ''1.0.0'')]\<rparr>"
      and env = win32_host and lib = sample_libraries and w = "[]" and pre = "[]"
      and v = "[]" and rest = "[]"]
  by (simp add: spec_findings_def spec_os_findings_def spec_cpu_findings_def
      spec_engines_findings_def spec_engine_findings_def resolve_alias_def aliases_def
      ignore_def warn_event_def human_def)

text \<open>
  What C4 leaves open: without reference too, an exception of \<open>semver.satisfies\<close> that
  comes before the first violation ends the call.
\<close>

lemma check_missing_semver_throws:
  assumes "reference info = None"
    and "spec_findings lib env info = pre @ Thrown m # rest"
    and "\<forall>f \<in> set pre. is_advisory f"
  shows "check lib env info w = (Inl (SemverError m), w @ map (warn_event (human info)) pre)"
  using assms
  by (simp add: check_missing_stop [where pre = pre and rest = "Thrown m # rest"])

text \<open>
  C7. On a manifest whose reference is optional, let \<open>v\<close> be the first violation among
  the findings that the call gets to, \<open>pre\<close> the advisories before it and \<open>rest\<close> the
  findings after it. Then the events that \<open>check\<close> leaves behind are exactly: the
  warnings of \<open>pre\<close>; for \<open>v\<close> the mark, its warning and the informational message; for
  every later violation the mark and its warning, for every later advisory its warning.
  So the informational message is emitted once, there is one \<open>addIgnore(true)\<close> per
  violation, and the reference ends as after a single \<open>addIgnore(true)\<close>.
\<close>

theorem check_optional_one_info:
  "reference info = Some r \<and> optional r \<and>
   reached (spec_findings lib env info) = pre @ Violation v # rest \<and>
   (\<forall>f \<in> set pre. \<not> is_violation f) \<longrightarrow>
     (\<exists>t. snd (check lib env info w) = w @ t \<and>
          t = map (warn_event (human info)) pre @
              [RefAddIgnore True, warn_event (human info) (Violation v),
               excluded_info (human info)] @
              concat (map (optional_later_events (human info)) rest) \<and>
          filter is_reporter_info t = [excluded_info (human info)] \<and>
          count_list t (RefAddIgnore True) =
            length (filter is_violation (reached (spec_findings lib env info))) \<and>
          reference_after t r = addIgnore True r)"
proof
  assume a: "reference info = Some r \<and> optional r \<and>
   reached (spec_findings lib env info) = pre @ Violation v # rest \<and>
   (\<forall>f \<in> set pre. \<not> is_violation f)"
  let ?h = "human info"
  let ?t = "map (warn_event ?h) pre @
              [RefAddIgnore True, warn_event ?h (Violation v), excluded_info ?h] @
              concat (map (optional_later_events ?h) rest)"
  from a have "snd (check lib env info w) =
      w @ optional_events ?h False (pre @ Violation v # rest)"
    by (simp add: check_optional)
  with a have run: "snd (check lib env info w) = w @ ?t"
    by (simp add: optional_events_first)
  have info: "filter is_reporter_info ?t = [excluded_info ?h]"
    by (simp add: warn_no_info later_no_info warn_event_def excluded_info_def)
  from a have pre: "filter is_violation pre = []"
    by (simp add: filter_empty_conv)
  have "count_list ?t (RefAddIgnore True) = Suc (length (filter is_violation rest))"
    by (simp add: warn_no_marks count_later_marks warn_event_def excluded_info_def)
  with a pre have marks: "count_list ?t (RefAddIgnore True) =
      length (filter is_violation (reached (spec_findings lib env info)))"
    by simp
  have after: "reference_after ?t r = addIgnore True r"
    by (simp add: reference_after_append reference_after_warns reference_after_later
        warn_event_def excluded_info_def)
  from run info marks after show "\<exists>t. snd (check lib env info w) = w @ t \<and>
          t = ?t \<and>
          filter is_reporter_info t = [excluded_info (human info)] \<and>
          count_list t (RefAddIgnore True) =
            length (filter is_violation (reached (spec_findings lib env info))) \<and>
          reference_after t r = addIgnore True r"
    by blast
qed

theorem check_optional_one_info_witness:
  "reference picky_pkg = Some \<lparr>optional = True, excluded = False\<rparr> \<and> optional \<lparr>optional = True, excluded = False\<rparr> \<and>
   reached (spec_findings sample_libraries win32_host picky_pkg) =
     [Advisory ''The engine someUnknownTool appears to be invalid.''] @
     Violation ''The engine node is incompatible with this module. Expected version 99.0.0.'' #
     [Violation ''The engine node is incompatible with this module. Expected version 98.0.0.''] \<and>
   \<not> is_violation (Advisory ''The engine someUnknownTool appears to be invalid.'') \<and>
   snd (check sample_libraries win32_host picky_pkg []) =
     [ReporterWarn ''picky@0.9.0: The engine someUnknownTool appears to be invalid.'',
      RefAddIgnore True,
      ReporterWarn
        ''picky@0.9.0: The engine node is incompatible with this module. Expected version 99.0.0.'',
      ReporterInfo (''picky@0.9.0 is an optional dependency and failed compatibility check. '' @
        ''Excluding it from installation.''),
      RefAddIgnore True,
      ReporterWarn
        ''picky@0.9.0: The engine node is incompatible with this module. Expected version 98.0.0.''] \<and>
   reached (spec_findings sample_libraries win32_host native_pkg) =
     [] @ Violation ''The platform win32 is incompatible with this module.'' #
     [Violation ''The engine node is incompatible with this module. Expected version 99.0.0.''] \<and>
   snd (check sample_libraries win32_host native_pkg []) =
     [RefAddIgnore True,
      ReporterWarn ''native@4.0.0: The platform win32 is incompatible with this module.'',
      ReporterInfo (''native@4.0.0 is an optional dependency and failed compatibility check. '' @
        ''Excluding it from installation.''),
      RefAddIgnore True,
      ReporterWarn
        ''native@4.0.0: The engine node is incompatible with this module. Expected version 99.0.0.'']"
  using check_optional_one_info [where info = picky_pkg
      and r = "\<lparr>optional = True, excluded = False\<rparr>" and env = win32_host and lib = sample_libraries and w = "[]"
      and pre = "[Advisory ''The engine someUnknownTool appears to be invalid.'']"
      and v = "''The engine node is incompatible with this module. Expected version 99.0.0.''"
      and rest = "[Violation
        ''The engine node is incompatible with this module. Expected version 98.0.0.'']"]
    check_optional_one_info [where info = native_pkg
      and r = "\<lparr>optional = True, excluded = False\<rparr>" and env = win32_host and lib = sample_libraries and w = "[]"
      and pre = "[]"
      and v = "''The platform win32 is incompatible with this module.''"
      and rest = "[Violation
        ''The engine node is incompatible with this module. Expected version 99.0.0.'']"]
  by (simp add: spec_findings_def spec_os_findings_def spec_cpu_findings_def
      spec_engines_findings_def spec_engine_findings_def resolve_alias_def aliases_def
      ignore_def warn_event_def excluded_info_def optional_later_events_def human_def
      isValid_def)

text \<open>
  C8 fails on the code. The engine name \<open>node.length\<close> is no key of
  \<open>process.versions\<close> and is not in \<open>ignore\<close>, but \<open>_.has\<close> reads it as the path to the
  length of the version of node, so the entry takes the first branch: \<open>actual\<close> is
  \<open>undefined\<close>, \<open>semver.satisfies\<close> is false, and the entry is reported through
  \<open>pushError\<close> as a violation, which is fatal for a manifest that is not optional. The
  claim asks for the advisory warning and nothing else.
\<close>

theorem check_engine_path_name_is_violation:
  "versions win32_host (resolve_alias ''node.length'') = None \<and>
   resolve_alias ''node.length'' \<notin> set ignore \<and>
   check_engine sample_libraries win32_host path_pkg (''node.length'', ''*'')
       \<lparr>didIgnore = False, didError = False\<rparr> [] =
     (Inr \<lparr>didIgnore = False, didError = True\<rparr>,
      [ReporterError
         ''path@5.0.0: The engine node.length is incompatible with this module. Expected version *.'']) \<and>
   check sample_libraries win32_host path_pkg [] =
     (Inl (MessageError ''Found incompatible module''),
      [ReporterError
         ''path@5.0.0: The engine node.length is incompatible with this module. Expected version *.''])"
  by (simp add: check_def check_os_def check_cpu_def check_engines_def check_engine_def
      pushError_def resolve_alias_def aliases_def ignore_def human_def)

text \<open>
  What the code does for the entries that fail its own test, \<open>_.has\<close>: nothing for a
  name in \<open>ignore\<close>, else the one warning, with \<open>didIgnore\<close> and \<open>didError\<close> unchanged.
\<close>

lemma check_engine_not_has:
  "\<not> has lib (versions env) (resolve_alias n) \<Longrightarrow>
   check_engine lib env info (n, wanted) l w =
     (Inr l,
      w @ (if resolve_alias n \<in> set ignore then []
           else [ReporterWarn (human info @ '': The engine '' @ resolve_alias n @
                   '' appears to be invalid.'')]))"
  by (simp add: check_engine_def)

lemma check_from_empty:
  "check lib env info w = (fst (check lib env info []), w @ snd (check lib env info []))"
proof -
  let ?l = "\<lparr>didIgnore = False, didError = False\<rparr>"
  have "route_findings info (spec_findings lib env info) ?l w =
      (fst (route_findings info (spec_findings lib env info) ?l []),
       w @ snd (route_findings info (spec_findings lib env info) ?l []))"
    by (rule route_findings_frame)
  then show ?thesis
    by (cases "route_findings info (spec_findings lib env info) ?l []")
      (simp add: check_route [where w = w] check_route [where w = "[]"] split: sum.splits)
qed

lemma init_loop_all_return:
  "\<forall>info \<in> set infos. fst (check lib env info []) = Inr () \<Longrightarrow>
   init_loop lib env infos w =
     (Inr (), w @ concat (map (\<lambda>info. snd (check lib env info [])) infos))"
proof (induction infos arbitrary: w)
  case Nil
  show ?case by simp
next
  case (Cons info infos)
  then have ok: "fst (check lib env info []) = Inr ()"
    by simp
  have "check lib env info w = (fst (check lib env info []), w @ snd (check lib env info []))"
    by (rule check_from_empty)
  with ok have "check lib env info w = (Inr (), w @ snd (check lib env info []))"
    by simp
  with Cons show ?case by simp
qed

lemma init_loop_first_failure:
  assumes "\<forall>info \<in> set before. fst (check lib env info []) = Inr ()"
    and "fst (check lib env bad []) = Inl e"
  shows "init_loop lib env (before @ bad # after) w =
     (Inl e, w @ concat (map (\<lambda>info. snd (check lib env info [])) (before @ [bad])))"
  using assms(1)
proof (induction before arbitrary: w)
  case Nil
  have "check lib env bad w = (fst (check lib env bad []), w @ snd (check lib env bad []))"
    by (rule check_from_empty)
  with assms(2) show ?case by simp
next
  case (Cons info before)
  then have ok: "fst (check lib env info []) = Inr ()"
    by simp
  have "check lib env info w = (fst (check lib env info []), w @ snd (check lib env info []))"
    by (rule check_from_empty)
  with ok have "check lib env info w = (Inr (), w @ snd (check lib env info []))"
    by simp
  with Cons show ?case by simp
qed

text \<open>
  C9. \<open>init\<close> checks the manifests in the order of the list and does not catch. If
  manifest \<open>k\<close> is the first whose \<open>check\<close> throws, \<open>init\<close> throws the same exception,
  the events left behind are those of the checks of manifests \<open>0\<close> to \<open>k\<close> in order, each
  in full, and the manifests after \<open>k\<close> have no influence on the outcome: they may be
  replaced by any others. If no \<open>check\<close> throws, \<open>init\<close> returns normally after the
  checks of all manifests.
\<close>

theorem init_stops_at_first_failure:
  "(k < length infos \<and>
    (\<forall>j < k. fst (check lib env (infos ! j) []) = Inr ()) \<and>
    fst (check lib env (infos ! k) []) = Inl e \<longrightarrow>
      init lib env infos w =
        (Inl e,
         w @ concat (map (\<lambda>info. snd (check lib env info [])) (take (Suc k) infos))) \<and>
      init lib env (take (Suc k) infos @ others) w = init lib env infos w) \<and>
   ((\<forall>info \<in> set infos. fst (check lib env info []) = Inr ()) \<longrightarrow>
      init lib env infos w =
        (Inr (), w @ concat (map (\<lambda>info. snd (check lib env info [])) infos)))"
proof (intro conjI impI)
  assume a: "k < length infos \<and>
    (\<forall>j < k. fst (check lib env (infos ! j) []) = Inr ()) \<and>
    fst (check lib env (infos ! k) []) = Inl e"
  then have split: "infos = take k infos @ infos ! k # drop (Suc k) infos"
    by (simp add: id_take_nth_drop)
  from a have before: "\<forall>info \<in> set (take k infos). fst (check lib env info []) = Inr ()"
    by (auto simp: in_set_conv_nth)
  from a have upto: "take (Suc k) infos = take k infos @ [infos ! k]"
    by (simp add: take_Suc_conv_app_nth)
  from a before have run: "\<And>after. init_loop lib env (take k infos @ infos ! k # after) w =
     (Inl e, w @ concat (map (\<lambda>info. snd (check lib env info []))
        (take k infos @ [infos ! k])))"
    by (simp add: init_loop_first_failure)
  from run [of "drop (Suc k) infos"] split upto
  show first: "init lib env infos w =
        (Inl e,
         w @ concat (map (\<lambda>info. snd (check lib env info [])) (take (Suc k) infos)))"
    by (simp add: init_def)
  from run [of others] upto
  have "init lib env (take (Suc k) infos @ others) w =
        (Inl e,
         w @ concat (map (\<lambda>info. snd (check lib env info [])) (take (Suc k) infos)))"
    by (simp add: init_def)
  with first show "init lib env (take (Suc k) infos @ others) w = init lib env infos w"
    by simp
next
  assume "\<forall>info \<in> set infos. fst (check lib env info []) = Inr ()"
  then show "init lib env infos w =
        (Inr (), w @ concat (map (\<lambda>info. snd (check lib env info [])) infos))"
    by (simp add: init_def init_loop_all_return)
qed

theorem init_stops_at_first_failure_witness:
  "(1::nat) < length [plain_pkg, required_pkg, optional_pkg] \<and>
   fst (check sample_libraries win32_host ([plain_pkg, required_pkg, optional_pkg] ! 0) []) =
     Inr () \<and>
   fst (check sample_libraries win32_host ([plain_pkg, required_pkg, optional_pkg] ! 1) []) =
     Inl (MessageError ''Found incompatible module'') \<and>
   init sample_libraries win32_host [plain_pkg, required_pkg, optional_pkg] [] =
     (Inl (MessageError ''Found incompatible module''),
      [ReporterError ''left-pad@2.0.0: The platform win32 is incompatible with this module.'',
       ReporterError
         ''left-pad@2.0.0: The CPU architecture x64 is incompatible with this module.'',
       ReporterWarn ''left-pad@2.0.0: The engine someUnknownTool appears to be invalid.'',
       ReporterError
         ''left-pad@2.0.0: The engine node is incompatible with this module. Expected version 99.0.0.'']) \<and>
   init sample_libraries win32_host [plain_pkg, required_pkg, unresolved_pkg, picky_pkg] [] =
     init sample_libraries win32_host [plain_pkg, required_pkg, optional_pkg] [] \<and>
   fst (check sample_libraries win32_host plain_pkg []) = Inr () \<and>
   fst (check sample_libraries win32_host picky_pkg []) = Inr () \<and>
   fst (init sample_libraries win32_host [plain_pkg, picky_pkg] []) = Inr ()"
  using init_stops_at_first_failure [where k = 1
      and infos = "[plain_pkg, required_pkg, optional_pkg]" and env = win32_host
      and lib = sample_libraries and w = "[]"
      and e = "MessageError ''Found incompatible module''"
      and others = "[unresolved_pkg, picky_pkg]"]
    init_stops_at_first_failure [where k = 1
      and infos = "[plain_pkg, picky_pkg]" and env = win32_host
      and lib = sample_libraries and w = "[]"
      and e = "MessageError ''Found incompatible module''"
      and others = "[]"]
  by (simp add: check_def check_os_def check_cpu_def check_engines_def check_engine_def
      pushError_def isValidPlatform_def isValidArch_def isValid_def resolve_alias_def
      aliases_def ignore_def human_def)

end
